theory Spec2Isabelle
  imports Main "HOL-Library.AList"
begin

section \<open>Workspace manager: data model\<close>

text \<open>
  A shallow embedding of \<^verbatim>\<open>multi_agent_mcp/workspace/manager.py\<close>.  Every method of
  \<^verbatim>\<open>WorkspaceManager\<close> becomes a function that takes the manager and returns the
  method's outcome together with the updated manager; an exception is the \<open>Inl\<close> summand
  of the outcome.  What the methods read from outside the object (the clock, which lock
  files other processes hold, whether disk I/O succeeds) is an explicit argument.
\<close>

datatype AgentType = CLAUDE | GEMINI | HUMAN

fun AgentType_value :: "AgentType \<Rightarrow> string" where
  "AgentType_value CLAUDE = ''claude''"
| "AgentType_value GEMINI = ''gemini''"
| "AgentType_value HUMAN = ''human''"

text \<open>\<^verbatim>\<open>AgentType(v)\<close>: the member with that value, \<open>None\<close> where Python raises ValueError.\<close>

definition AgentType_of :: "string \<Rightarrow> AgentType option" where
  "AgentType_of v =
     (if v = ''claude'' then Some CLAUDE
      else if v = ''gemini'' then Some GEMINI
      else if v = ''human'' then Some HUMAN
      else None)"

datatype FileState = AVAILABLE | LOCKED_READ | LOCKED_WRITE | MODIFIED | CONFLICT

fun FileState_value :: "FileState \<Rightarrow> string" where
  "FileState_value AVAILABLE = ''available''"
| "FileState_value LOCKED_READ = ''locked_read''"
| "FileState_value LOCKED_WRITE = ''locked_write''"
| "FileState_value MODIFIED = ''modified''"
| "FileState_value CONFLICT = ''conflict''"

definition FileState_of :: "string \<Rightarrow> FileState option" where
  "FileState_of v =
     (if v = ''available'' then Some AVAILABLE
      else if v = ''locked_read'' then Some LOCKED_READ
      else if v = ''locked_write'' then Some LOCKED_WRITE
      else if v = ''modified'' then Some MODIFIED
      else if v = ''conflict'' then Some CONFLICT
      else None)"

datatype error = ValueError | KeyError | IOError

subsection \<open>Paths\<close>

text \<open>
  A \<^verbatim>\<open>pathlib.Path\<close> on POSIX: whether it starts at the root, and its components.
  (pathlib's special root \<^verbatim>\<open>//\<close> is not modelled.)
\<close>

datatype path = Path (anchored: bool) (parts: "string list")

text \<open>The operator \<^verbatim>\<open>/\<close>: an anchored right operand replaces the left one.\<close>

definition joinpath :: "path \<Rightarrow> path \<Rightarrow> path" where
  "joinpath a b = (if anchored b then b else Path (anchored a) (parts a @ parts b))"

text \<open>\<^verbatim>\<open>Path.name\<close>: the final component, the empty string when there is none.\<close>

definition name :: "path \<Rightarrow> string" where
  "name p = (case rev (parts p) of [] \<Rightarrow> [] | c # _ \<Rightarrow> c)"

text \<open>\<^verbatim>\<open>Path.relative_to\<close>: \<open>None\<close> where pathlib raises ValueError.\<close>

definition relative_to :: "path \<Rightarrow> path \<Rightarrow> path option" where
  "relative_to p base =
     (if anchored p = anchored base \<and> take (length (parts base)) (parts p) = parts base
      then Some (Path False (drop (length (parts base)) (parts p)))
      else None)"

fun join_parts :: "string list \<Rightarrow> string" where
  "join_parts [] = []"
| "join_parts [c] = c"
| "join_parts (c # d # cs) = c @ CHR ''/'' # join_parts (d # cs)"

text \<open>\<^verbatim>\<open>str(path)\<close>.\<close>

definition str_path :: "path \<Rightarrow> string" where
  "str_path p =
     (if anchored p then CHR ''/'' # join_parts (parts p)
      else if parts p = [] then ''.''
      else join_parts (parts p))"

fun split_on :: "char \<Rightarrow> string \<Rightarrow> string list" where
  "split_on c [] = [[]]"
| "split_on c (x # xs) =
     (if x = c then [] # split_on c xs
      else (case split_on c xs of [] \<Rightarrow> [[x]] | w # ws \<Rightarrow> (x # w) # ws))"

text \<open>\<^verbatim>\<open>Path(s)\<close>: split at slashes; empty components and \<^verbatim>\<open>.\<close> are dropped.\<close>

definition parse_path :: "string \<Rightarrow> path" where
  "parse_path s =
     Path (case s of [] \<Rightarrow> False | x # _ \<Rightarrow> x = CHR ''/'')
          (filter (\<lambda>c. c \<noteq> [] \<and> c \<noteq> ''.'') (split_on (CHR ''/'') s))"

text \<open>The components a \<^verbatim>\<open>Path\<close> object can have.\<close>

definition wf_path :: "path \<Rightarrow> bool" where
  "wf_path p = list_all (\<lambda>c. c \<noteq> [] \<and> c \<noteq> ''.'' \<and> CHR ''/'' \<notin> set c) (parts p)"

subsection \<open>Records\<close>

datatype details = NoDetails | WriteFlag bool | Size nat

record event =
  ev_timestamp :: nat
  ev_agent :: string
  ev_action :: string
  ev_file :: string
  ev_details :: details

record FileMetadata =
  path :: path
  state :: FileState
  locked_by :: "AgentType option"
  last_modified :: nat
  checksum :: "string option"
  history :: "event list"

text \<open>\<^verbatim>\<open>FileMetadata(path=p)\<close> with the dataclass defaults; the clock is \<open>now\<close>.\<close>

definition FileMetadata_init :: "path \<Rightarrow> nat \<Rightarrow> FileMetadata" where
  "FileMetadata_init p now =
     \<lparr>path = p, state = AVAILABLE, locked_by = None, last_modified = now,
      checksum = None, history = []\<rparr>"

record activity =
  last_active :: "nat option"
  current_files :: "path set"

text \<open>
  The manager.  \<open>file_metadata\<close> is the dict in insertion order; \<open>log_files\<close> is the
  directory \<^verbatim>\<open>logs\<close>: for each day (the number that names the file
  \<^verbatim>\<open>events_YYYYMMDD.jsonl\<close>) the lines of that file, in file order.
\<close>

record WorkspaceManager =
  workspace_path :: path
  file_metadata :: "(path \<times> FileMetadata) list"
  agent_activity :: "AgentType \<Rightarrow> activity"
  log_files :: "(nat \<times> event list) list"

definition lock_dir :: "WorkspaceManager \<Rightarrow> path" where
  "lock_dir s = joinpath (workspace_path s) (parse_path ''.locks'')"

definition tracked :: "WorkspaceManager \<Rightarrow> path \<Rightarrow> bool" where
  "tracked s p = (map_of (file_metadata s) p \<noteq> None)"

definition day_of :: "nat \<Rightarrow> nat" where
  "day_of now = now div 86400"

section \<open>Operations\<close>

definition append_line :: "nat \<Rightarrow> event \<Rightarrow> (nat \<times> event list) list \<Rightarrow> (nat \<times> event list) list" where
  "append_line d ev logs =
     AList.update d ((case map_of logs d of None \<Rightarrow> [] | Some ls \<Rightarrow> ls) @ [ev]) logs"

definition log_file_event ::
  "WorkspaceManager \<Rightarrow> path \<Rightarrow> AgentType \<Rightarrow> string \<Rightarrow> details \<Rightarrow> nat
     \<Rightarrow> (error + unit) \<times> WorkspaceManager" where
  "log_file_event s fp ag act det now =
     (case relative_to fp (workspace_path s) of
        None \<Rightarrow> (Inl ValueError, s)
      | Some r \<Rightarrow>
          let ev = \<lparr>ev_timestamp = now, ev_agent = AgentType_value ag, ev_action = act,
                    ev_file = str_path r, ev_details = det\<rparr>;
              s1 = (case map_of (file_metadata s) fp of
                      None \<Rightarrow> s
                    | Some m \<Rightarrow>
                        s\<lparr>file_metadata :=
                            AList.update fp (m\<lparr>history := history m @ [ev]\<rparr>) (file_metadata s)\<rparr>)
          in (Inr (), s1\<lparr>log_files := append_line (day_of now) ev (log_files s1)\<rparr>))"

text \<open>
  \<open>acquire_file\<close>.  \<open>held\<close> is the set of lock files that stay taken by another process
  for the whole timeout: \<^verbatim>\<open>lock.acquire()\<close> raises \<^verbatim>\<open>filelock.Timeout\<close> exactly on those.
  The \<^verbatim>\<open>FileLock\<close> object is local to the call and the manager keeps no reference to it.
\<close>

definition lock_path :: "WorkspaceManager \<Rightarrow> path \<Rightarrow> path" where
  "lock_path s fp = joinpath (lock_dir s) (parse_path (name fp @ ''.lock''))"

definition acquire_file ::
  "WorkspaceManager \<Rightarrow> path \<Rightarrow> AgentType \<Rightarrow> bool \<Rightarrow> path set \<Rightarrow> nat
     \<Rightarrow> (error + bool) \<times> WorkspaceManager" where
  "acquire_file s fp ag write held now =
     (let abs_path = joinpath (workspace_path s) fp;
          s1 = (if tracked s abs_path then s
                else s\<lparr>file_metadata :=
                        AList.update abs_path (FileMetadata_init abs_path now) (file_metadata s)\<rparr>)
      in case map_of (file_metadata s1) abs_path of
           None \<Rightarrow> (Inl KeyError, s1)
         | Some m \<Rightarrow>
             if state m = LOCKED_WRITE \<and> locked_by m \<noteq> Some ag then (Inr False, s1)
             else if write \<and> lock_path s fp \<in> held then (Inr False, s1)
             else
               let m' = (if write then m\<lparr>state := LOCKED_WRITE, locked_by := Some ag\<rparr>
                         else if state m \<noteq> LOCKED_WRITE
                              then m\<lparr>state := LOCKED_READ, locked_by := Some ag\<rparr>
                         else m);
                   act = agent_activity s1 ag;
                   s2 = s1\<lparr>file_metadata := AList.update abs_path m' (file_metadata s1),
                           agent_activity := (agent_activity s1)
                             (ag := \<lparr>last_active = Some now,
                                    current_files = insert abs_path (current_files act)\<rparr>)\<rparr>
               in (case log_file_event s2 abs_path ag ''acquired'' (WriteFlag write) now of
                     (Inl e, s3) \<Rightarrow> (Inl e, s3)
                   | (Inr _, s3) \<Rightarrow> (Inr True, s3)))"

definition release_file ::
  "WorkspaceManager \<Rightarrow> path \<Rightarrow> AgentType \<Rightarrow> nat \<Rightarrow> (error + unit) \<times> WorkspaceManager" where
  "release_file s fp ag now =
     (let abs_path = joinpath (workspace_path s) fp
      in case map_of (file_metadata s) abs_path of
           None \<Rightarrow> (Inr (), s)
         | Some m \<Rightarrow>
             if locked_by m = Some ag then
               let act = agent_activity s ag;
                   s1 = s\<lparr>file_metadata :=
                            AList.update abs_path (m\<lparr>state := AVAILABLE, locked_by := None\<rparr>)
                              (file_metadata s),
                          agent_activity := (agent_activity s)
                            (ag := act\<lparr>current_files := current_files act - {abs_path}\<rparr>)\<rparr>
               in log_file_event s1 abs_path ag ''released'' NoDetails now
             else (Inr (), s))"

subsection \<open>The change watcher\<close>

definition handle_file_change :: "WorkspaceManager \<Rightarrow> path \<Rightarrow> nat \<Rightarrow> WorkspaceManager" where
  "handle_file_change s fp now =
     (case map_of (file_metadata s) fp of
        None \<Rightarrow> s
      | Some m \<Rightarrow>
          let m1 = m\<lparr>last_modified := now\<rparr>;
              m2 = (if state m1 = LOCKED_WRITE then m1\<lparr>state := CONFLICT\<rparr> else m1)
          in s\<lparr>file_metadata := AList.update fp m2 (file_metadata s)\<rparr>)"

definition handle_file_created :: "WorkspaceManager \<Rightarrow> path \<Rightarrow> nat \<Rightarrow> WorkspaceManager" where
  "handle_file_created s fp now =
     (if tracked s fp then s
      else s\<lparr>file_metadata :=
              AList.update fp (FileMetadata_init fp now) (file_metadata s)\<rparr>)"

subsection \<open>Reading and writing under a lock\<close>

text \<open>
  \<open>read_file\<close>.  \<open>io\<close> is what opening and reading the file gives: the content, or \<open>None\<close>
  when it raises.  The \<^verbatim>\<open>try\<close> has a \<^verbatim>\<open>finally\<close> and no \<^verbatim>\<open>except\<close>: the release runs on every
  exit, and an exception of the body goes on to the caller afterwards.
\<close>

definition read_file ::
  "WorkspaceManager \<Rightarrow> path \<Rightarrow> AgentType \<Rightarrow> path set \<Rightarrow> nat \<Rightarrow> string option
     \<Rightarrow> (error + string option) \<times> WorkspaceManager" where
  "read_file s fp ag held now io =
     (case acquire_file s fp ag False held now of
        (Inl e, s1) \<Rightarrow> (Inl e, s1)
      | (Inr ok, s1) \<Rightarrow>
          if \<not> ok then (Inr None, s1)
          else
            let abs_path = joinpath (workspace_path s1) fp;
                body = (case io of
                          None \<Rightarrow> (Inl IOError, s1)
                        | Some content \<Rightarrow>
                            (case log_file_event s1 abs_path ag ''read'' NoDetails now of
                               (Inl e, s2) \<Rightarrow> (Inl e, s2)
                             | (Inr _, s2) \<Rightarrow> (Inr (Some content), s2)))
            in (case release_file (snd body) fp ag now of
                  (Inl e, s3) \<Rightarrow> (Inl e, s3)
                | (Inr _, s3) \<Rightarrow> (fst body, s3)))"

text \<open>
  \<open>write_file\<close>.  \<open>on_disk\<close>: the file exists; \<open>backup_ok\<close>: copying it to the history
  directory succeeds; \<open>write_ok\<close>: creating the parent directory and writing the content
  succeeds.  Here the \<^verbatim>\<open>try\<close> has \<^verbatim>\<open>except Exception: return False\<close> before its \<^verbatim>\<open>finally\<close>.
\<close>

definition write_file ::
  "WorkspaceManager \<Rightarrow> path \<Rightarrow> string \<Rightarrow> AgentType \<Rightarrow> bool \<Rightarrow> path set \<Rightarrow> nat
     \<Rightarrow> bool \<Rightarrow> bool \<Rightarrow> bool \<Rightarrow> (error + bool) \<times> WorkspaceManager" where
  "write_file s fp content ag backup held now on_disk backup_ok write_ok =
     (case acquire_file s fp ag True held now of
        (Inl e, s1) \<Rightarrow> (Inl e, s1)
      | (Inr ok, s1) \<Rightarrow>
          if \<not> ok then (Inr False, s1)
          else
            let abs_path = joinpath (workspace_path s1) fp;
                body =
                  (if backup \<and> on_disk \<and> \<not> backup_ok then (False, s1)
                   else if \<not> write_ok then (False, s1)
                   else
                     let s2 = (case map_of (file_metadata s1) abs_path of
                                 None \<Rightarrow> s1
                               | Some m \<Rightarrow>
                                   s1\<lparr>file_metadata :=
                                        AList.update abs_path
                                          (m\<lparr>last_modified := now, state := MODIFIED\<rparr>)
                                          (file_metadata s1)\<rparr>)
                     in (case log_file_event s2 abs_path ag ''wrote'' (Size (length content)) now of
                           (Inl e, s3) \<Rightarrow> (False, s3)
                         | (Inr _, s3) \<Rightarrow> (True, s3)))
            in (case release_file (snd body) fp ag now of
                  (Inl e, s4) \<Rightarrow> (Inl e, s4)
                | (Inr _, s4) \<Rightarrow> (Inr (fst body), s4)))"

subsection \<open>The audit log query\<close>

text \<open>
  The loop over the lines of one log file: the events collected so far, and whether the
  \<^verbatim>\<open>return\<close> inside the loop was taken.
\<close>

fun scan_lines :: "string \<Rightarrow> int \<Rightarrow> event list \<Rightarrow> event list \<Rightarrow> event list \<times> bool" where
  "scan_lines av limit [] events = (events, False)"
| "scan_lines av limit (e # es) events =
     (if ev_agent e = av then
        (let events' = events @ [e]
         in if int (length events') \<ge> limit then (events', True)
            else scan_lines av limit es events')
      else scan_lines av limit es events)"

fun scan_files :: "string \<Rightarrow> int \<Rightarrow> event list list \<Rightarrow> event list \<Rightarrow> event list" where
  "scan_files av limit [] events = events"
| "scan_files av limit (f # fs) events =
     (case scan_lines av limit f events of
        (events', True) \<Rightarrow> events'
      | (events', False) \<Rightarrow> scan_files av limit fs events')"

text \<open>
  \<^verbatim>\<open>sorted(..., reverse=True)\<close> on the file names is the order of the days, latest first
  (the names differ in the date only).
\<close>

definition get_recent_events :: "WorkspaceManager \<Rightarrow> AgentType \<Rightarrow> int \<Rightarrow> event list" where
  "get_recent_events s ag limit =
     scan_files (AgentType_value ag) limit
       (map snd (take 3 (rev (sort_key fst (log_files s))))) []"

subsection \<open>The view of an agent\<close>

record file_info =
  fi_path :: string
  fi_state :: string
  fi_last_modified :: nat

record view =
  v_agent :: string
  workspace_root :: string
  agent_dir :: string
  shared_files :: "file_info list"
  locked_files :: "file_info list"
  recent_changes :: "event list"
  current_context :: string

text \<open>The dict \<^verbatim>\<open>self.dirs\<close>.\<close>

definition dirs :: "WorkspaceManager \<Rightarrow> string \<Rightarrow> path option" where
  "dirs s k =
     map_option (\<lambda>d. joinpath (workspace_path s) (parse_path d))
       (map_of [(''shared'', ''shared''), (''claude'', ''claude_workspace''),
                (''gemini'', ''gemini_workspace''), (''tasks'', ''tasks''),
                (''findings'', ''findings''), (''logs'', ''logs''),
                (''context'', ''context''), (''sandbox'', ''sandbox''),
                (''history'', ''history'')] k)"

text \<open>The loop over \<^verbatim>\<open>self.file_metadata.items()\<close>; the accumulator is the two lists.\<close>

fun view_files ::
  "path \<Rightarrow> AgentType \<Rightarrow> (path \<times> FileMetadata) list \<Rightarrow> file_info list \<times> file_info list
     \<Rightarrow> error + file_info list \<times> file_info list" where
  "view_files ws ag [] acc = Inr acc"
| "view_files ws ag ((p, m) # rest) (sh, lk) =
     (case relative_to p ws of
        None \<Rightarrow> Inl ValueError
      | Some r \<Rightarrow>
          let info = \<lparr>fi_path = str_path r, fi_state = FileState_value (state m),
                      fi_last_modified = last_modified m\<rparr>
          in if locked_by m = Some ag then view_files ws ag rest (sh, lk @ [info])
             else if state m = AVAILABLE then view_files ws ag rest (sh @ [info], lk)
             else view_files ws ag rest (sh, lk))"

text \<open>\<open>ctx\<close> is what \<^verbatim>\<open>_get_current_context\<close> reads from the context file.\<close>

definition get_agent_view :: "WorkspaceManager \<Rightarrow> AgentType \<Rightarrow> string \<Rightarrow> error + view" where
  "get_agent_view s ag ctx =
     (case view_files (workspace_path s) ag (file_metadata s) ([], []) of
        Inl e \<Rightarrow> Inl e
      | Inr (sh, lk) \<Rightarrow>
          Inr \<lparr>v_agent = AgentType_value ag,
               workspace_root = str_path (workspace_path s),
               agent_dir = str_path (case dirs s (AgentType_value ag) of
                                       Some d \<Rightarrow> d
                                     | None \<Rightarrow> joinpath (workspace_path s) (parse_path ''shared'')),
               shared_files = sh, locked_files = lk,
               recent_changes = get_recent_events s ag 10,
               current_context = ctx\<rparr>)"

subsection \<open>Snapshot and restore\<close>

record file_data =
  fd_path :: string
  fd_state :: string
  fd_locked_by :: "string option"
  fd_last_modified :: nat
  fd_checksum :: "string option"
  fd_history :: "event list"

record snapshot =
  sn_timestamp :: nat
  sn_files :: "file_data list"

text \<open>\<^verbatim>\<open>history[-10:]\<close>.\<close>

definition last10 :: "'a list \<Rightarrow> 'a list" where
  "last10 h = drop (length h - 10) h"

definition file_data_of :: "path \<times> FileMetadata \<Rightarrow> file_data" where
  "file_data_of pm =
     \<lparr>fd_path = str_path (fst pm),
      fd_state = FileState_value (state (snd pm)),
      fd_locked_by = map_option AgentType_value (locked_by (snd pm)),
      fd_last_modified = last_modified (snd pm),
      fd_checksum = checksum (snd pm),
      fd_history = last10 (history (snd pm))\<rparr>"

text \<open>\<open>save_workspace_state\<close>: the content written to the state file.\<close>

definition save_workspace_state :: "WorkspaceManager \<Rightarrow> nat \<Rightarrow> snapshot" where
  "save_workspace_state s now =
     \<lparr>sn_timestamp = now, sn_files = map file_data_of (file_metadata s)\<rparr>"

text \<open>
  \<^verbatim>\<open>AgentType(d['locked_by']) if d.get('locked_by') else None\<close>: an absent or empty value
  gives no holder; an unknown value raises.
\<close>

definition locked_by_of :: "file_data \<Rightarrow> error + AgentType option" where
  "locked_by_of fd =
     (case fd_locked_by fd of
        None \<Rightarrow> Inr None
      | Some v \<Rightarrow>
          if v = [] then Inr None
          else (case AgentType_of v of None \<Rightarrow> Inl ValueError | Some a \<Rightarrow> Inr (Some a)))"

text \<open>
  The restoring loop of \<open>_initialize_workspace_state\<close>.  \<open>ex\<close> tells which paths exist on
  disk.  An exception leaves the loop, and the \<^verbatim>\<open>except\<close> around it keeps what was restored
  so far.
\<close>

fun restore_files ::
  "(path \<Rightarrow> bool) \<Rightarrow> file_data list \<Rightarrow> (path \<times> FileMetadata) list
     \<Rightarrow> (path \<times> FileMetadata) list" where
  "restore_files ex [] md = md"
| "restore_files ex (fd # fds) md =
     (let p = parse_path (fd_path fd)
      in if ex p then
           (case FileState_of (fd_state fd) of
              None \<Rightarrow> md
            | Some st \<Rightarrow>
                (case locked_by_of fd of
                   Inl e \<Rightarrow> md
                 | Inr lb \<Rightarrow>
                     restore_files ex fds
                       (AList.update p
                          \<lparr>path = p, state = st, locked_by = lb,
                           last_modified = fd_last_modified fd,
                           checksum = fd_checksum fd, history = fd_history fd\<rparr> md)))
         else restore_files ex fds md)"

text \<open>
  The constructor up to the call of \<open>_initialize_workspace_state\<close>, and that call:
  \<open>blob\<close> is the content of the state file, \<open>None\<close> when there is no such file.
\<close>

definition new_manager :: "path \<Rightarrow> (nat \<times> event list) list \<Rightarrow> WorkspaceManager" where
  "new_manager ws logs =
     \<lparr>workspace_path = ws, file_metadata = [],
      agent_activity = (\<lambda>_. \<lparr>last_active = None, current_files = {}\<rparr>),
      log_files = logs\<rparr>"

definition initialize_workspace_state ::
  "WorkspaceManager \<Rightarrow> snapshot option \<Rightarrow> (path \<Rightarrow> bool) \<Rightarrow> WorkspaceManager" where
  "initialize_workspace_state s blob ex =
     (case blob of
        None \<Rightarrow> s
      | Some b \<Rightarrow> s\<lparr>file_metadata := restore_files ex (sn_files b) (file_metadata s)\<rparr>)"

text \<open>Reading the table: the state and the holder recorded for a path.\<close>

definition file_state :: "WorkspaceManager \<Rightarrow> path \<Rightarrow> FileState option" where
  "file_state s p = map_option state (map_of (file_metadata s) p)"

definition holder :: "WorkspaceManager \<Rightarrow> path \<Rightarrow> AgentType option" where
  "holder s p = (case map_of (file_metadata s) p of None \<Rightarrow> None | Some m \<Rightarrow> locked_by m)"

text \<open>The holder of LOCKED_WRITE on a path, if the path is in that state.\<close>

definition write_holder :: "WorkspaceManager \<Rightarrow> path \<Rightarrow> AgentType option" where
  "write_holder s p =
     (case map_of (file_metadata s) p of
        None \<Rightarrow> None
      | Some m \<Rightarrow> if state m = LOCKED_WRITE then locked_by m else None)"

text \<open>The lines of the log file of a day, in file order.\<close>

definition log_lines :: "WorkspaceManager \<Rightarrow> nat \<Rightarrow> event list" where
  "log_lines s d = (case map_of (log_files s) d of None \<Rightarrow> [] | Some ls \<Rightarrow> ls)"

subsection \<open>Sample managers\<close>

definition ex_root :: path where
  "ex_root = Path True [''ws'']"

definition ex_notes :: path where
  "ex_notes = Path False [''notes.md'']"

definition ex_record :: "FileState \<Rightarrow> AgentType option \<Rightarrow> FileMetadata" where
  "ex_record st lb =
     \<lparr>path = Path True [''ws'', ''notes.md''], state = st, locked_by = lb,
      last_modified = 3, checksum = None, history = []\<rparr>"

definition ex_manager :: "(path \<times> FileMetadata) list \<Rightarrow> WorkspaceManager" where
  "ex_manager md =
     \<lparr>workspace_path = ex_root, file_metadata = md,
      agent_activity = (\<lambda>_. \<lparr>last_active = None, current_files = {}\<rparr>),
      log_files = []\<rparr>"

definition ex_write_locked :: WorkspaceManager where
  "ex_write_locked =
     ex_manager [(Path True [''ws'', ''notes.md''], ex_record LOCKED_WRITE (Some CLAUDE))]"

definition ex_abs :: path where
  "ex_abs = Path True [''ws'', ''notes.md'']"

definition ex_lock :: path where
  "ex_lock = Path True [''ws'', ''.locks'', ''notes.md.lock'']"

definition ex_read_locked :: WorkspaceManager where
  "ex_read_locked = ex_manager [(ex_abs, ex_record LOCKED_READ (Some CLAUDE))]"

definition ex_conflict :: WorkspaceManager where
  "ex_conflict = ex_manager [(ex_abs, ex_record CONFLICT (Some CLAUDE))]"



definition ex_event :: "nat \<Rightarrow> event" where
  "ex_event n =
     \<lparr>ev_timestamp = n, ev_agent = ''claude'', ev_action = ''read'', ev_file = ''notes.md'',
      ev_details = NoDetails\<rparr>"

definition ex_logged :: WorkspaceManager where
  "ex_logged = (ex_manager [])\<lparr>log_files := [(0, map ex_event [1, 2, 3, 4, 5, 6, 7, 8, 9, 10])]\<rparr>"

text \<open>
  The invariants the Python types give the table: a dict has each key once, and every
  key is a \<^verbatim>\<open>Path\<close> object.
\<close>

definition wf_table :: "(path \<times> FileMetadata) list \<Rightarrow> bool" where
  "wf_table md = (distinct (map fst md) \<and> list_all (\<lambda>pm. wf_path (fst pm)) md)"

text \<open>The name under which a view lists a path, and the entry it lists for it.\<close>

definition view_name :: "WorkspaceManager \<Rightarrow> path \<Rightarrow> string" where
  "view_name s p = (case relative_to p (workspace_path s) of None \<Rightarrow> [] | Some r \<Rightarrow> str_path r)"

definition listed_info :: "path \<Rightarrow> path \<times> FileMetadata \<Rightarrow> file_info" where
  "listed_info ws pm =
     \<lparr>fi_path = (case relative_to (fst pm) ws of None \<Rightarrow> [] | Some r \<Rightarrow> str_path r),
      fi_state = FileState_value (state (snd pm)),
      fi_last_modified = last_modified (snd pm)\<rparr>"

text \<open>What restoring a saved record gives: the history is cut to its last ten events.\<close>

definition restored :: "path \<Rightarrow> FileMetadata \<Rightarrow> FileMetadata" where
  "restored p m = m\<lparr>path := p, history := last10 (history m)\<rparr>"

definition ex_gone :: path where
  "ex_gone = Path True [''ws'', ''tasks'', ''old.md'']"

definition ex_draft :: path where
  "ex_draft = Path True [''ws'', ''draft.md'']"

definition ex_three :: WorkspaceManager where
  "ex_three =
     ex_manager [(ex_abs, ex_record LOCKED_WRITE (Some CLAUDE)),
                 (ex_gone, ex_record AVAILABLE None),
                 (ex_draft, ex_record CONFLICT (Some GEMINI))]"

definition ex_on_disk :: "path \<Rightarrow> bool" where
  "ex_on_disk p = (p = ex_abs \<or> p = ex_draft)"

definition ex_view :: view where
  "ex_view =
     \<lparr>v_agent = ''claude'', workspace_root = ''/ws'', agent_dir = ''/ws/claude_workspace'',
      shared_files = [\<lparr>fi_path = ''tasks/old.md'', fi_state = ''available'',
                       fi_last_modified = 3\<rparr>],
      locked_files = [\<lparr>fi_path = ''notes.md'', fi_state = ''locked_write'',
                       fi_last_modified = 3\<rparr>],
      recent_changes = [], current_context = ''{}''\<rparr>"

section \<open>Properties\<close>

lemma map_of_update_same: "map_of (AList.update k v al) k = Some v"
  by (simp add: update_conv')

text \<open>
  C1.  While a path is LOCKED_WRITE and held by agent \<open>a\<close>, an acquire on that path by any
  other agent, exclusive or not, returns False and changes nothing: the caller does not
  become the holder, and the record's one holder of LOCKED_WRITE is still \<open>a\<close>.
\<close>

theorem acquire_blocked_by_writer:
  assumes "map_of (file_metadata s) (joinpath (workspace_path s) fp) = Some m"
    and "state m = LOCKED_WRITE"
    and "locked_by m = Some a"
    and "b \<noteq> a"
  shows "acquire_file s fp b write held now = (Inr False, s)
         \<and> write_holder (snd (acquire_file s fp b write held now))
              (joinpath (workspace_path s) fp) = Some a"
  using assms by (simp add: acquire_file_def tracked_def write_holder_def)

theorem acquire_blocked_by_writer_witness:
  "map_of (file_metadata ex_write_locked) (joinpath (workspace_path ex_write_locked) ex_notes)
     = Some (ex_record LOCKED_WRITE (Some CLAUDE))
   \<and> state (ex_record LOCKED_WRITE (Some CLAUDE)) = LOCKED_WRITE
   \<and> locked_by (ex_record LOCKED_WRITE (Some CLAUDE)) = Some CLAUDE
   \<and> GEMINI \<noteq> CLAUDE
   \<and> acquire_file ex_write_locked ex_notes GEMINI False {} 7 = (Inr False, ex_write_locked)
   \<and> write_holder (snd (acquire_file ex_write_locked ex_notes GEMINI False {} 7))
        (joinpath (workspace_path ex_write_locked) ex_notes) = Some CLAUDE"
proof -
  have h: "map_of (file_metadata ex_write_locked)
             (joinpath (workspace_path ex_write_locked) ex_notes)
           = Some (ex_record LOCKED_WRITE (Some CLAUDE))"
    by (simp add: ex_write_locked_def ex_manager_def ex_notes_def ex_root_def joinpath_def)
  have st: "state (ex_record LOCKED_WRITE (Some CLAUDE)) = LOCKED_WRITE"
    and lb: "locked_by (ex_record LOCKED_WRITE (Some CLAUDE)) = Some CLAUDE"
    by (simp_all add: ex_record_def)
  have ne: "GEMINI \<noteq> CLAUDE" by simp
  from acquire_blocked_by_writer [OF h st lb ne, of False "{}" 7] h st lb ne
  show ?thesis by blast
qed




text \<open>
  C3 as stated fails: a path that the watcher has put in CONFLICT is AVAILABLE again once
  its holder releases it.
\<close>

theorem release_leaves_conflict_counterexample:
  "file_state ex_write_locked ex_abs = Some LOCKED_WRITE
   \<and> file_state (handle_file_change ex_write_locked ex_abs 5) ex_abs = Some CONFLICT
   \<and> holder (handle_file_change ex_write_locked ex_abs 5) ex_abs = Some CLAUDE
   \<and> file_state (snd (release_file (handle_file_change ex_write_locked ex_abs 5) ex_notes CLAUDE 6))
        ex_abs = Some AVAILABLE"
  by (simp add: ex_write_locked_def ex_manager_def ex_record_def ex_abs_def ex_notes_def ex_root_def file_state_def holder_def handle_file_change_def release_file_def
        joinpath_def log_file_event_def relative_to_def Let_def)

text \<open>
  C3, amended.  For a path in state CONFLICT (lying under the workspace root): watcher
  events on it, modified or created, leave it CONFLICT, and so does a release by an agent
  that is not its recorded holder, which changes nothing.  A release by the recorded
  holder makes it AVAILABLE and clears the holder.  An acquire on it succeeds when
  non-exclusive, or when the lock file is free, and makes it LOCKED_READ, respectively
  LOCKED_WRITE.
\<close>

theorem conflict_transitions:
  assumes "map_of (file_metadata s) (joinpath (workspace_path s) fp) = Some m"
    and "state m = CONFLICT"
    and "relative_to (joinpath (workspace_path s) fp) (workspace_path s) = Some r"
  shows "file_state (handle_file_change s (joinpath (workspace_path s) fp) now)
           (joinpath (workspace_path s) fp) = Some CONFLICT
       \<and> file_state (handle_file_created s (joinpath (workspace_path s) fp) now)
           (joinpath (workspace_path s) fp) = Some CONFLICT
       \<and> (locked_by m \<noteq> Some ag \<longrightarrow> release_file s fp ag now = (Inr (), s))
       \<and> (locked_by m = Some ag \<longrightarrow>
            fst (release_file s fp ag now) = Inr ()
          \<and> file_state (snd (release_file s fp ag now)) (joinpath (workspace_path s) fp)
              = Some AVAILABLE
          \<and> holder (snd (release_file s fp ag now)) (joinpath (workspace_path s) fp) = None)
       \<and> (lock_path s fp \<notin> held \<longrightarrow>
            fst (acquire_file s fp ag True held now) = Inr True
          \<and> file_state (snd (acquire_file s fp ag True held now)) (joinpath (workspace_path s) fp)
              = Some LOCKED_WRITE)
       \<and> fst (acquire_file s fp ag False held now) = Inr True
       \<and> file_state (snd (acquire_file s fp ag False held now)) (joinpath (workspace_path s) fp)
              = Some LOCKED_READ"
  using assms
  by (simp add: acquire_file_def release_file_def handle_file_change_def handle_file_created_def
        tracked_def log_file_event_def Let_def map_of_update_same file_state_def holder_def)

theorem conflict_transitions_witness:
  "map_of (file_metadata ex_conflict) (joinpath (workspace_path ex_conflict) ex_notes)
     = Some (ex_record CONFLICT (Some CLAUDE))
   \<and> state (ex_record CONFLICT (Some CLAUDE)) = CONFLICT
   \<and> relative_to (joinpath (workspace_path ex_conflict) ex_notes) (workspace_path ex_conflict)
       = Some ex_notes
   \<and> file_state (handle_file_change ex_conflict (joinpath (workspace_path ex_conflict) ex_notes) 5)
       (joinpath (workspace_path ex_conflict) ex_notes) = Some CONFLICT
   \<and> locked_by (ex_record CONFLICT (Some CLAUDE)) \<noteq> Some GEMINI
   \<and> release_file ex_conflict ex_notes GEMINI 5 = (Inr (), ex_conflict)
   \<and> locked_by (ex_record CONFLICT (Some CLAUDE)) = Some CLAUDE
   \<and> file_state (snd (release_file ex_conflict ex_notes CLAUDE 5))
       (joinpath (workspace_path ex_conflict) ex_notes) = Some AVAILABLE
   \<and> lock_path ex_conflict ex_notes \<notin> {}
   \<and> file_state (snd (acquire_file ex_conflict ex_notes GEMINI True {} 5))
       (joinpath (workspace_path ex_conflict) ex_notes) = Some LOCKED_WRITE"
proof -
  have h: "map_of (file_metadata ex_conflict) (joinpath (workspace_path ex_conflict) ex_notes)
           = Some (ex_record CONFLICT (Some CLAUDE))"
    by (simp add: ex_conflict_def ex_manager_def ex_record_def ex_abs_def ex_notes_def ex_root_def joinpath_def)
  have st: "state (ex_record CONFLICT (Some CLAUDE)) = CONFLICT"
    by (simp add: ex_record_def)
  have rel: "relative_to (joinpath (workspace_path ex_conflict) ex_notes)
               (workspace_path ex_conflict) = Some ex_notes"
    by (simp add: ex_conflict_def ex_manager_def ex_record_def ex_abs_def ex_notes_def ex_root_def joinpath_def relative_to_def)
  have other: "locked_by (ex_record CONFLICT (Some CLAUDE)) \<noteq> Some GEMINI"
    and own: "locked_by (ex_record CONFLICT (Some CLAUDE)) = Some CLAUDE"
    by (simp_all add: ex_record_def)
  have free: "lock_path ex_conflict ex_notes \<notin> {}"
    by simp
  from conflict_transitions [OF h st rel, where ag = GEMINI and held = "{}" and now = 5]
    conflict_transitions [OF h st rel, where ag = CLAUDE and held = "{}" and now = 5]
    h st rel other own free
  show ?thesis by blast
qed

text \<open>
  C4 as stated fails: a modified event for a path without a record changes nothing, so
  the event is dropped and no record is created.
\<close>

theorem untracked_modified_event_counterexample:
  "\<not> tracked (ex_manager []) ex_abs
   \<and> handle_file_change (ex_manager []) ex_abs 5 = ex_manager []"
  by (simp add: tracked_def ex_manager_def handle_file_change_def)

text \<open>
  C4, amended.  For a path that has no record: a created event creates a fresh record
  for it (AVAILABLE, no holder, empty history); a modified event is ignored and leaves
  the manager as it was.
\<close>

theorem watcher_on_untracked_path:
  assumes "\<not> tracked s p"
  shows "map_of (file_metadata (handle_file_created s p now)) p = Some (FileMetadata_init p now)
       \<and> state (FileMetadata_init p now) = AVAILABLE
       \<and> handle_file_change s p now = s"
  using assms
  by (simp add: handle_file_created_def handle_file_change_def tracked_def map_of_update_same
        FileMetadata_init_def)

theorem watcher_on_untracked_path_witness:
  "\<not> tracked (ex_manager []) ex_abs
   \<and> map_of (file_metadata (handle_file_created (ex_manager []) ex_abs 5)) ex_abs
       = Some (FileMetadata_init ex_abs 5)
   \<and> state (FileMetadata_init ex_abs 5) = AVAILABLE
   \<and> handle_file_change (ex_manager []) ex_abs 5 = ex_manager []"
proof -
  have h: "\<not> tracked (ex_manager []) ex_abs"
    by (simp add: tracked_def ex_manager_def)
  from watcher_on_untracked_path [OF h, where now = 5] h
  show ?thesis by blast
qed

text \<open>
  C5 as stated fails for a path that had no record: the call that times out on the lock
  file returns False, yet it has created the record before trying the lock.
\<close>

theorem timeout_creates_record_counterexample:
  "map_of (file_metadata (ex_manager [])) ex_abs = None
   \<and> lock_path (ex_manager []) ex_notes = ex_lock
   \<and> fst (acquire_file (ex_manager []) ex_notes GEMINI True {ex_lock} 7) = Inr False
   \<and> map_of (file_metadata (snd (acquire_file (ex_manager []) ex_notes GEMINI True {ex_lock} 7)))
        ex_abs = Some (FileMetadata_init ex_abs 7)"
  by (simp add: ex_lock_def ex_manager_def ex_record_def ex_abs_def ex_notes_def ex_root_def acquire_file_def tracked_def joinpath_def lock_path_def lock_dir_def
        parse_path_def name_def Let_def)

text \<open>
  C5, amended.  When an exclusive acquire cannot obtain the lock file, it returns False
  and raises nothing.  If the path had a record, the manager is exactly as before the
  call; if it had none, the only change is the fresh record (AVAILABLE, no holder, empty
  history) created for the path at the start of the call.
\<close>

theorem acquire_timeout:
  assumes "write" and "lock_path s fp \<in> held"
  shows "fst (acquire_file s fp ag write held now) = Inr False
       \<and> snd (acquire_file s fp ag write held now) =
           (if tracked s (joinpath (workspace_path s) fp) then s
            else s\<lparr>file_metadata :=
                    AList.update (joinpath (workspace_path s) fp)
                      (FileMetadata_init (joinpath (workspace_path s) fp) now)
                      (file_metadata s)\<rparr>)"
  using assms
  by (auto simp add: acquire_file_def tracked_def Let_def map_of_update_same split: option.splits)

theorem acquire_timeout_witness:
  "lock_path ex_read_locked ex_notes \<in> {ex_lock}
   \<and> fst (acquire_file ex_read_locked ex_notes GEMINI True {ex_lock} 7) = Inr False
   \<and> snd (acquire_file ex_read_locked ex_notes GEMINI True {ex_lock} 7) = ex_read_locked"
proof -
  have taken: "lock_path ex_read_locked ex_notes \<in> {ex_lock}"
    by (simp add: ex_read_locked_def ex_lock_def ex_manager_def ex_record_def ex_abs_def ex_notes_def ex_root_def lock_path_def lock_dir_def joinpath_def parse_path_def name_def)
  have tr: "tracked ex_read_locked (joinpath (workspace_path ex_read_locked) ex_notes)"
    by (simp add: ex_read_locked_def ex_lock_def ex_manager_def ex_record_def ex_abs_def ex_notes_def ex_root_def tracked_def joinpath_def)
  from acquire_timeout [OF TrueI taken, where ag = GEMINI and now = 7] taken tr
  show ?thesis by simp
qed

text \<open>
  C6.  The query is meant to give the most recent events of the agent, latest first.  With
  ten events of one agent in the log file of a single day, written in the order 1 to 10,
  the query with limit 5 gives the events 1 to 5: the five oldest, oldest first.
\<close>

theorem recent_events_oldest_first:
  "map ev_timestamp (log_lines ex_logged 0) = [1, 2, 3, 4, 5, 6, 7, 8, 9, 10]
   \<and> map ev_timestamp (get_recent_events ex_logged CLAUDE 5) = [1, 2, 3, 4, 5]"
  by (simp add: log_lines_def ex_logged_def ex_manager_def ex_event_def get_recent_events_def)

text \<open>
  C8.  A failure of the I/O inside \<open>write_file\<close> comes back as False, and the record is
  released.  Inside \<open>read_file\<close> the record is released as well, but the failure reaches
  the caller as the exception, not as None.
\<close>

theorem read_io_failure_raises:
  "fst (read_file (ex_manager []) ex_notes GEMINI {} 7 None) = Inl IOError
   \<and> file_state (snd (read_file (ex_manager []) ex_notes GEMINI {} 7 None)) ex_abs
       = Some AVAILABLE
   \<and> holder (snd (read_file (ex_manager []) ex_notes GEMINI {} 7 None)) ex_abs = None
   \<and> fst (write_file (ex_manager []) ex_notes ''abc'' GEMINI True {} 7 False True False)
       = Inr False
   \<and> file_state (snd (write_file (ex_manager []) ex_notes ''abc'' GEMINI True {} 7 False True False))
       ex_abs = Some AVAILABLE"
  by (simp add: ex_manager_def ex_root_def ex_notes_def ex_abs_def read_file_def write_file_def
        acquire_file_def release_file_def log_file_event_def tracked_def joinpath_def
        relative_to_def file_state_def holder_def Let_def FileMetadata_init_def)



subsection \<open>Paths and their strings\<close>

lemma split_on_no_sep: "c \<notin> set w \<Longrightarrow> split_on c w = [w]"
  by (induction w) auto

lemma split_on_append_sep:
  "c \<notin> set w \<Longrightarrow> split_on c (w @ c # rest) = w # split_on c rest"
  by (induction w) auto

lemma split_on_join_parts:
  "cs \<noteq> [] \<Longrightarrow> \<forall>w \<in> set cs. CHR ''/'' \<notin> set w
     \<Longrightarrow> split_on (CHR ''/'') (join_parts cs) = cs"
proof (induction cs rule: join_parts.induct)
  case 1
  then show ?case by simp
next
  case (2 c)
  then show ?case by (simp add: split_on_no_sep)
next
  case (3 c d cs)
  then show ?case by (simp add: split_on_append_sep)
qed

lemma filter_wf_parts:
  "\<forall>w \<in> set cs. w \<noteq> [] \<and> w \<noteq> ''.'' \<Longrightarrow> filter (\<lambda>c. c \<noteq> [] \<and> c \<noteq> ''.'') cs = cs"
  by (induction cs) auto

lemma join_parts_head:
  "cs \<noteq> [] \<Longrightarrow> \<forall>w \<in> set cs. w \<noteq> [] \<and> CHR ''/'' \<notin> set w
     \<Longrightarrow> \<exists>x xs. join_parts cs = x # xs \<and> x \<noteq> CHR ''/''"
proof (induction cs rule: join_parts.induct)
  case 1
  then show ?case by simp
next
  case (2 c)
  then show ?case by (cases c) auto
next
  case (3 c d cs)
  then show ?case by (cases c) auto
qed

lemma parse_str_path: "wf_path p \<Longrightarrow> parse_path (str_path p) = p"
proof (cases p)
  case (Path a cs)
  assume wf: "wf_path p"
  with Path have all: "\<forall>w \<in> set cs. w \<noteq> [] \<and> w \<noteq> ''.'' \<and> CHR ''/'' \<notin> set w"
    by (simp add: wf_path_def list_all_iff)
  show ?thesis
  proof (cases "cs = []")
    case True
    with Path show ?thesis by (simp add: parse_path_def str_path_def)
  next
    case False
    from False all have sp: "split_on (CHR ''/'') (join_parts cs) = cs"
      by (simp add: split_on_join_parts)
    from all have fl: "filter (\<lambda>c. c \<noteq> [] \<and> c \<noteq> ''.'') cs = cs"
      by (simp add: filter_wf_parts)
    from False all obtain x xs where hd: "join_parts cs = x # xs" "x \<noteq> CHR ''/''"
      using join_parts_head [of cs] by auto
    show ?thesis
    proof (cases a)
      case True
      with Path False sp fl show ?thesis by (simp add: parse_path_def str_path_def)
    next
      case False
      with Path \<open>cs \<noteq> []\<close> sp fl hd show ?thesis
        using sp fl by (simp add: parse_path_def str_path_def)
    qed
  qed
qed

lemma str_path_inj: "wf_path p \<Longrightarrow> wf_path q \<Longrightarrow> str_path p = str_path q \<Longrightarrow> p = q"
  by (metis parse_str_path)

lemma relative_to_wf:
  assumes "wf_path p" and "relative_to p base = Some r"
  shows "wf_path r"
proof -
  from assms(2) have r: "parts r = drop (length (parts base)) (parts p)"
    by (auto simp add: relative_to_def split: if_splits)
  have "set (drop (length (parts base)) (parts p)) \<subseteq> set (parts p)"
    by (rule set_drop_subset)
  with assms(1) r show ?thesis
    by (auto simp add: wf_path_def list_all_iff)
qed

lemma relative_to_inj:
  assumes "relative_to p base = Some r" and "relative_to q base = Some r"
  shows "p = q"
proof -
  let ?n = "length (parts base)"
  from assms have a: "anchored p = anchored q"
    and t: "take ?n (parts p) = take ?n (parts q)"
    and d: "drop ?n (parts p) = drop ?n (parts q)"
    by (auto simp add: relative_to_def split: if_splits)
  have "parts p = take ?n (parts p) @ drop ?n (parts p)" by simp
  also have "\<dots> = take ?n (parts q) @ drop ?n (parts q)" using t d by simp
  also have "\<dots> = parts q" by simp
  finally have "parts p = parts q" .
  with a show ?thesis by (simp add: path.expand)
qed

subsection \<open>Snapshot and restore\<close>

lemma FileState_of_value: "FileState_of (FileState_value st) = Some st"
  by (cases st) (simp_all add: FileState_of_def)

lemma AgentType_of_value: "AgentType_of (AgentType_value a) = Some a"
  by (cases a) (simp_all add: AgentType_of_def)

lemma AgentType_value_nonempty: "AgentType_value a \<noteq> []"
  by (cases a) simp_all

lemma locked_by_of_file_data: "locked_by_of (file_data_of pm) = Inr (locked_by (snd pm))"
  by (cases "locked_by (snd pm)")
     (simp_all add: locked_by_of_def file_data_of_def AgentType_of_value AgentType_value_nonempty)

lemma restore_files_map_of:
  assumes "distinct (map fst md)" and "\<forall>pm \<in> set md. wf_path (fst pm)"
  shows "map_of (restore_files ex (map file_data_of md) acc) p =
           (case map_of md p of
              None \<Rightarrow> map_of acc p
            | Some m \<Rightarrow> if ex p then Some (restored p m) else map_of acc p)"
  using assms
proof (induction md arbitrary: acc)
  case Nil
  then show ?case by simp
next
  case (Cons pm rest)
  obtain q m where pm: "pm = (q, m)" by (cases pm)
  from Cons.prems pm have wfq: "wf_path q" by simp
  then have pq: "parse_path (fd_path (file_data_of (q, m))) = q"
    by (simp add: file_data_of_def parse_str_path)
  have st: "FileState_of (fd_state (file_data_of (q, m))) = Some (state m)"
    by (simp add: file_data_of_def FileState_of_value)
  have lb: "locked_by_of (file_data_of (q, m)) = Inr (locked_by m)"
    using locked_by_of_file_data [of "(q, m)"] by simp
  have rec: "\<lparr>path = q, state = state m, locked_by = locked_by m,
              last_modified = fd_last_modified (file_data_of (q, m)),
              checksum = fd_checksum (file_data_of (q, m)),
              history = fd_history (file_data_of (q, m))\<rparr> = restored q m"
    by (simp add: restored_def file_data_of_def)
  from Cons.prems pm have dist: "distinct (map fst rest)" and notin: "q \<notin> fst ` set rest"
    and wfr: "\<forall>pm \<in> set rest. wf_path (fst pm)" by auto
  from notin have none: "map_of rest q = None"
    by (simp add: map_of_eq_None_iff)
  show ?case
  proof (cases "ex q")
    case True
    then have step: "restore_files ex (map file_data_of (pm # rest)) acc =
        restore_files ex (map file_data_of rest) (AList.update q (restored q m) acc)"
      using pq st lb rec by (simp add: pm Let_def)
    show ?thesis
      unfolding step Cons.IH [OF dist wfr]
      using True none by (auto simp add: pm update_conv' split: option.splits)
  next
    case False
    then have step: "restore_files ex (map file_data_of (pm # rest)) acc =
        restore_files ex (map file_data_of rest) acc"
      using pq by (simp add: pm Let_def)
    show ?thesis
      unfolding step Cons.IH [OF dist wfr]
      using False none by (auto simp add: pm split: option.splits)
  qed
qed

text \<open>
  C7.  Saving a manager and restoring the snapshot into a fresh manager gives, for every
  recorded path that exists on disk, a record with the same path, state and holder; a
  recorded path that no longer exists on disk has no record afterwards.  (The table is a
  dict of \<^verbatim>\<open>Path\<close> keys: \<open>wf_table\<close>.)
\<close>

theorem snapshot_restore_roundtrip:
  assumes "wf_table (file_metadata s)"
    and "map_of (file_metadata s) p = Some m"
  shows "(ex p \<longrightarrow>
            map_option path (map_of (file_metadata
              (initialize_workspace_state (new_manager (workspace_path s) (log_files s))
                 (Some (save_workspace_state s now)) ex)) p) = Some p
          \<and> file_state (initialize_workspace_state (new_manager (workspace_path s) (log_files s))
                 (Some (save_workspace_state s now)) ex) p = Some (state m)
          \<and> holder (initialize_workspace_state (new_manager (workspace_path s) (log_files s))
                 (Some (save_workspace_state s now)) ex) p = locked_by m)
       \<and> (\<not> ex p \<longrightarrow>
            \<not> tracked (initialize_workspace_state (new_manager (workspace_path s) (log_files s))
                 (Some (save_workspace_state s now)) ex) p)"
proof -
  from assms(1) have d: "distinct (map fst (file_metadata s))"
    and w: "\<forall>pm \<in> set (file_metadata s). wf_path (fst pm)"
    by (simp_all add: wf_table_def list_all_iff)
  have "map_of (file_metadata
          (initialize_workspace_state (new_manager (workspace_path s) (log_files s))
             (Some (save_workspace_state s now)) ex)) p
        = (if ex p then Some (restored p m) else None)"
    using restore_files_map_of [OF d w, of ex "[]" p] assms(2)
    by (simp add: initialize_workspace_state_def new_manager_def save_workspace_state_def)
  then show ?thesis
    by (simp add: file_state_def holder_def tracked_def restored_def)
qed

theorem snapshot_restore_roundtrip_witness:
  "wf_table (file_metadata ex_three)
   \<and> map_of (file_metadata ex_three) ex_abs = Some (ex_record LOCKED_WRITE (Some CLAUDE))
   \<and> map_of (file_metadata ex_three) ex_gone = Some (ex_record AVAILABLE None)
   \<and> ex_on_disk ex_abs
   \<and> file_state (initialize_workspace_state
         (new_manager (workspace_path ex_three) (log_files ex_three))
         (Some (save_workspace_state ex_three 9)) ex_on_disk) ex_abs
       = Some (state (ex_record LOCKED_WRITE (Some CLAUDE)))
   \<and> holder (initialize_workspace_state
         (new_manager (workspace_path ex_three) (log_files ex_three))
         (Some (save_workspace_state ex_three 9)) ex_on_disk) ex_abs
       = locked_by (ex_record LOCKED_WRITE (Some CLAUDE))
   \<and> \<not> ex_on_disk ex_gone
   \<and> \<not> tracked (initialize_workspace_state
         (new_manager (workspace_path ex_three) (log_files ex_three))
         (Some (save_workspace_state ex_three 9)) ex_on_disk) ex_gone"
proof -
  have wf: "wf_table (file_metadata ex_three)"
    by (simp add: wf_table_def wf_path_def ex_three_def ex_manager_def ex_abs_def ex_gone_def
          ex_draft_def)
  have a: "map_of (file_metadata ex_three) ex_abs = Some (ex_record LOCKED_WRITE (Some CLAUDE))"
    and g: "map_of (file_metadata ex_three) ex_gone = Some (ex_record AVAILABLE None)"
    by (simp_all add: ex_three_def ex_manager_def ex_abs_def ex_gone_def ex_draft_def)
  have there: "ex_on_disk ex_abs" and gone: "\<not> ex_on_disk ex_gone"
    by (simp_all add: ex_on_disk_def ex_abs_def ex_gone_def ex_draft_def)
  from snapshot_restore_roundtrip [OF wf a, where ex = ex_on_disk and now = 9]
    snapshot_restore_roundtrip [OF wf g, where ex = ex_on_disk and now = 9]
    wf a g there gone
  show ?thesis by blast
qed

subsection \<open>The view of an agent\<close>

lemma view_files_acc:
  "view_files ws ag md (sh, lk) = Inr (sh', lk') \<Longrightarrow>
     (\<forall>pm \<in> set md. relative_to (fst pm) ws \<noteq> None)
   \<and> lk' = lk @ map (listed_info ws) (filter (\<lambda>pm. locked_by (snd pm) = Some ag) md)
   \<and> sh' = sh @ map (listed_info ws)
        (filter (\<lambda>pm. locked_by (snd pm) \<noteq> Some ag \<and> state (snd pm) = AVAILABLE) md)"
proof (induction md arbitrary: sh lk)
  case Nil
  then show ?case by simp
next
  case (Cons pm rest)
  obtain p m where pm: "pm = (p, m)" by (cases pm)
  from Cons.prems pm obtain r where r: "relative_to p ws = Some r"
    by (auto split: option.splits)
  let ?info = "\<lparr>fi_path = str_path r, fi_state = FileState_value (state m),
                 fi_last_modified = last_modified m\<rparr>"
  have info: "listed_info ws pm = ?info"
    by (simp add: listed_info_def pm r)
  show ?case
  proof (cases "locked_by m = Some ag")
    case True
    with Cons.prems pm r have "view_files ws ag rest (sh, lk @ [?info]) = Inr (sh', lk')"
      by (simp add: Let_def)
    from Cons.IH [OF this] pm r True info show ?thesis
      by simp
  next
    case False
    show ?thesis
    proof (cases "state m = AVAILABLE")
      case True
      with Cons.prems pm r False have "view_files ws ag rest (sh @ [?info], lk) = Inr (sh', lk')"
        by (simp add: Let_def)
      from Cons.IH [OF this] pm r False True info show ?thesis
        by simp
    next
      case av: False
      with Cons.prems pm r False have "view_files ws ag rest (sh, lk) = Inr (sh', lk')"
        by (simp add: Let_def)
      from Cons.IH [OF this] pm r False av info show ?thesis
        by simp
    qed
  qed
qed

lemma view_name_inj:
  assumes "wf_path p" and "wf_path q"
    and "relative_to p (workspace_path s) \<noteq> None" and "relative_to q (workspace_path s) \<noteq> None"
    and "view_name s p = view_name s q"
  shows "p = q"
proof -
  from assms(3,4) obtain r r' where r: "relative_to p (workspace_path s) = Some r"
    and r': "relative_to q (workspace_path s) = Some r'" by auto
  from assms(1) r have "wf_path r" by (rule relative_to_wf)
  moreover from assms(2) r' have "wf_path r'" by (rule relative_to_wf)
  moreover from assms(5) r r' have "str_path r = str_path r'" by (simp add: view_name_def)
  ultimately have "r = r'" by (rule str_path_inj)
  with r r' show ?thesis by (auto intro: relative_to_inj)
qed

lemma listed_iff:
  assumes wf: "wf_table md"
    and rel: "\<forall>pm \<in> set md. relative_to (fst pm) (workspace_path s) \<noteq> None"
    and look: "map_of md p = Some m"
  shows "view_name s p \<in> fi_path ` set (map (listed_info (workspace_path s)) (filter (\<lambda>pm. P (snd pm)) md))
         \<longleftrightarrow> P m"
proof
  from look have mem: "(p, m) \<in> set md" by (rule map_of_SomeD)
  {
    assume "P m"
    with mem have "(p, m) \<in> set (filter (\<lambda>pm. P (snd pm)) md)" by simp
    then have "fi_path (listed_info (workspace_path s) (p, m))
                 \<in> fi_path ` set (map (listed_info (workspace_path s)) (filter (\<lambda>pm. P (snd pm)) md))"
      by (intro imageI) (simp only: set_map, rule imageI)
    then show "view_name s p \<in> fi_path ` set (map (listed_info (workspace_path s)) (filter (\<lambda>pm. P (snd pm)) md))"
      by (simp add: listed_info_def view_name_def)
  }
  {
    assume "view_name s p \<in> fi_path ` set (map (listed_info (workspace_path s)) (filter (\<lambda>pm. P (snd pm)) md))"
    then obtain q m' where qm: "(q, m') \<in> set md" "P m'"
      and eq: "view_name s p = fi_path (listed_info (workspace_path s) (q, m'))"
      by auto
    from eq have eq': "view_name s p = view_name s q"
      by (simp add: listed_info_def view_name_def)
    from wf mem qm(1) have wfp: "wf_path p" "wf_path q"
      by (auto simp add: wf_table_def list_all_iff)
    from rel mem qm(1) have "relative_to p (workspace_path s) \<noteq> None"
      "relative_to q (workspace_path s) \<noteq> None" by auto
    with wfp eq' have "p = q" by (intro view_name_inj)
    with wf qm(1) look have "m' = m"
      by (simp add: wf_table_def)
    with qm(2) show "P m" by simp
  }
qed

text \<open>
  C10.  In a view returned for agent \<open>ag\<close>, a tracked path is among the locked files
  exactly when its holder is \<open>ag\<close>, whatever its state; it is among the shared files
  exactly when its holder is not \<open>ag\<close> and its state is AVAILABLE; and a path whose
  holder is not \<open>ag\<close> and whose state is not AVAILABLE (locked by another agent, MODIFIED
  or CONFLICT) is in neither list.
\<close>

theorem agent_view_lists:
  assumes "get_agent_view s ag ctx = Inr v"
    and "wf_table (file_metadata s)"
    and "map_of (file_metadata s) p = Some m"
  shows "(view_name s p \<in> fi_path ` set (locked_files v) \<longleftrightarrow> locked_by m = Some ag)
       \<and> (view_name s p \<in> fi_path ` set (shared_files v)
            \<longleftrightarrow> locked_by m \<noteq> Some ag \<and> state m = AVAILABLE)
       \<and> (locked_by m \<noteq> Some ag \<and> state m \<noteq> AVAILABLE \<longrightarrow>
            view_name s p \<notin> fi_path ` set (locked_files v)
          \<and> view_name s p \<notin> fi_path ` set (shared_files v))"
proof -
  from assms(1) obtain sh lk where
    vf: "view_files (workspace_path s) ag (file_metadata s) ([], []) = Inr (sh, lk)"
    and v: "shared_files v = sh" "locked_files v = lk"
    by (auto simp add: get_agent_view_def split: sum.splits)
  note acc = view_files_acc [OF vf]
  from acc have rel: "\<forall>pm \<in> set (file_metadata s). relative_to (fst pm) (workspace_path s) \<noteq> None"
    by simp
  have lk: "view_name s p \<in> fi_path ` set lk \<longleftrightarrow> locked_by m = Some ag"
    using listed_iff [OF assms(2) rel assms(3), of "\<lambda>m. locked_by m = Some ag"] acc by simp
  have sh: "view_name s p \<in> fi_path ` set sh \<longleftrightarrow> locked_by m \<noteq> Some ag \<and> state m = AVAILABLE"
    using listed_iff [OF assms(2) rel assms(3), of "\<lambda>m. locked_by m \<noteq> Some ag \<and> state m = AVAILABLE"] acc
    by simp
  from lk sh v show ?thesis by simp
qed

theorem agent_view_lists_witness:
  "get_agent_view ex_three CLAUDE ''{}'' = Inr ex_view
   \<and> wf_table (file_metadata ex_three)
   \<and> map_of (file_metadata ex_three) ex_abs = Some (ex_record LOCKED_WRITE (Some CLAUDE))
   \<and> map_of (file_metadata ex_three) ex_gone = Some (ex_record AVAILABLE None)
   \<and> map_of (file_metadata ex_three) ex_draft = Some (ex_record CONFLICT (Some GEMINI))
   \<and> view_name ex_three ex_abs \<in> fi_path ` set (locked_files ex_view)
   \<and> view_name ex_three ex_gone \<in> fi_path ` set (shared_files ex_view)
   \<and> locked_by (ex_record CONFLICT (Some GEMINI)) \<noteq> Some CLAUDE
   \<and> state (ex_record CONFLICT (Some GEMINI)) \<noteq> AVAILABLE
   \<and> view_name ex_three ex_draft \<notin> fi_path ` set (locked_files ex_view)
   \<and> view_name ex_three ex_draft \<notin> fi_path ` set (shared_files ex_view)"
proof -
  have v: "get_agent_view ex_three CLAUDE ''{}'' = Inr ex_view"
    by (simp add: get_agent_view_def ex_three_def ex_manager_def ex_record_def ex_root_def
          ex_abs_def ex_gone_def ex_draft_def ex_view_def relative_to_def str_path_def
          get_recent_events_def dirs_def joinpath_def parse_path_def Let_def)
  have wf: "wf_table (file_metadata ex_three)"
    by (simp add: wf_table_def wf_path_def ex_three_def ex_manager_def ex_abs_def ex_gone_def
          ex_draft_def)
  have a: "map_of (file_metadata ex_three) ex_abs = Some (ex_record LOCKED_WRITE (Some CLAUDE))"
    and g: "map_of (file_metadata ex_three) ex_gone = Some (ex_record AVAILABLE None)"
    and d: "map_of (file_metadata ex_three) ex_draft = Some (ex_record CONFLICT (Some GEMINI))"
    by (simp_all add: ex_three_def ex_manager_def ex_abs_def ex_gone_def ex_draft_def)
  have own: "locked_by (ex_record LOCKED_WRITE (Some CLAUDE)) = Some CLAUDE"
    and free: "locked_by (ex_record AVAILABLE None) \<noteq> Some CLAUDE"
      "state (ex_record AVAILABLE None) = AVAILABLE"
    and other: "locked_by (ex_record CONFLICT (Some GEMINI)) \<noteq> Some CLAUDE"
      "state (ex_record CONFLICT (Some GEMINI)) \<noteq> AVAILABLE"
    by (simp_all add: ex_record_def)
  from agent_view_lists [OF v wf a] agent_view_lists [OF v wf g] agent_view_lists [OF v wf d]
    v wf a g d own free other
  show ?thesis by blast
qed

end
